theory Spec2Isabelle
  imports Main "HOL-Library.Multiset"
begin

section \<open>Data model (shared/schema as used by storage.ts)\<close>

text \<open>
  A \<open>Date\<close> is its number of milliseconds since the epoch. Every \<open>new Date()\<close> of the
  source reads the clock; the reading is an argument of the operation that makes it.
  JavaScript numbers that hold ids and limits are modelled as integers. The two id
  counters are doubles that count up from 1: their increment is modelled with its
  rounding at \<open>2^53\<close>. The value of \<open>parseInt\<close> is the exact integer; its rounding
  to a double beyond \<open>2^53\<close> is outside the model.
  A string is the list of the bytes of its UTF-8 encoding.
\<close>

type_synonym time = int

text \<open>\<open>InsertCommand\<close>: the fields a caller supplies; \<open>Command\<close> adds \<open>id\<close> and \<open>createdAt\<close>.\<close>

record insert_command =
  name :: string
  description :: string
  usage :: string
  active :: bool

record command = insert_command +
  id_command :: int
  createdAt :: time

text \<open>\<open>Partial<InsertCommand>\<close>: every key may be missing.\<close>

record partial_insert_command =
  name_opt :: "string option"
  description_opt :: "string option"
  usage_opt :: "string option"
  active_opt :: "bool option"

record insert_log =
  eventType :: string
  server :: string
  user :: string
  details :: string

record log = insert_log +
  id_log :: int
  timestamp :: time

record insert_bot_stat =
  uptime :: string
  servers :: int
  commands_stat :: int
  memoryUsage :: string
  apiLatency :: int
  startedAt :: time
  updatedAt :: time

record bot_stat = insert_bot_stat +
  id_stat :: int

section \<open>The JavaScript library functions the code calls\<close>

subsection \<open>Map<number, Command>: insertion-ordered\<close>

text \<open>
  A \<open>Map\<close> iterates in insertion order; \<open>set\<close> on a present key replaces the value in
  place, on a new key appends; \<open>delete\<close> reports whether the key was present.
\<close>

type_synonym ('k, 'v) js_map = "('k \<times> 'v) list"

definition map_get :: "('k, 'v) js_map \<Rightarrow> 'k \<Rightarrow> 'v option" where
  "map_get m k = map_of m k"

fun map_set :: "'k \<Rightarrow> 'v \<Rightarrow> ('k, 'v) js_map \<Rightarrow> ('k, 'v) js_map" where
  "map_set k v [] = [(k, v)]"
| "map_set k v (p # ps) = (if fst p = k then (k, v) # ps else p # map_set k v ps)"

definition map_has :: "('k, 'v) js_map \<Rightarrow> 'k \<Rightarrow> bool" where
  "map_has m k = (k \<in> set (map fst m))"

definition map_delete :: "'k \<Rightarrow> ('k, 'v) js_map \<Rightarrow> ('k, 'v) js_map" where
  "map_delete k m = filter (\<lambda>p. fst p \<noteq> k) m"

definition map_values :: "('k, 'v) js_map \<Rightarrow> 'v list" where
  "map_values m = map snd m"

subsection \<open>Array.prototype.sort with a comparator, and slice\<close>

text \<open>
  \<open>sort\<close> is stable and orders \<open>a\<close> before \<open>b\<close> when the comparator is negative.
  With a consistent comparator every stable sort computes the same array; the model
  computes it by insertion.
\<close>

fun insort_cmp :: "('a \<Rightarrow> 'a \<Rightarrow> int) \<Rightarrow> 'a \<Rightarrow> 'a list \<Rightarrow> 'a list" where
  "insort_cmp cmp x [] = [x]"
| "insort_cmp cmp x (y # ys) =
     (if cmp x y \<le> 0 then x # y # ys else y # insort_cmp cmp x ys)"

definition array_sort :: "('a \<Rightarrow> 'a \<Rightarrow> int) \<Rightarrow> 'a list \<Rightarrow> 'a list" where
  "array_sort cmp xs = foldr (insort_cmp cmp) xs []"

text \<open>\<open>xs.slice(0, end)\<close>: a negative \<open>end\<close> counts from the end of the array.\<close>

definition slice0 :: "'a list \<Rightarrow> int \<Rightarrow> 'a list" where
  "slice0 xs e =
     (let len = int (length xs);
          final = (if e < 0 then max (len + e) 0 else min e len)
      in take (nat final) xs)"

subsection \<open>Numbers: parseInt, isNaN, truthiness\<close>

datatype js_number = NaN | Num int

definition isNaN :: "js_number \<Rightarrow> bool" where
  "isNaN x = (x = NaN)"

text \<open>The white space \<open>parseInt\<close> skips (WhiteSpace and LineTerminator), in UTF-8.\<close>

definition white_space :: "string list" where
  "white_space =
     [[CHR 0x09], [CHR 0x0A], [CHR 0x0B], [CHR 0x0C], [CHR 0x0D], [CHR 0x20],
      [CHR 0xC2, CHR 0xA0], [CHR 0xE1, CHR 0x9A, CHR 0x80],
      [CHR 0xE2, CHR 0x80, CHR 0x80], [CHR 0xE2, CHR 0x80, CHR 0x81],
      [CHR 0xE2, CHR 0x80, CHR 0x82], [CHR 0xE2, CHR 0x80, CHR 0x83],
      [CHR 0xE2, CHR 0x80, CHR 0x84], [CHR 0xE2, CHR 0x80, CHR 0x85],
      [CHR 0xE2, CHR 0x80, CHR 0x86], [CHR 0xE2, CHR 0x80, CHR 0x87],
      [CHR 0xE2, CHR 0x80, CHR 0x88], [CHR 0xE2, CHR 0x80, CHR 0x89],
      [CHR 0xE2, CHR 0x80, CHR 0x8A], [CHR 0xE2, CHR 0x80, CHR 0xA8],
      [CHR 0xE2, CHR 0x80, CHR 0xA9], [CHR 0xE2, CHR 0x80, CHR 0xAF],
      [CHR 0xE2, CHR 0x81, CHR 0x9F], [CHR 0xE3, CHR 0x80, CHR 0x80],
      [CHR 0xEF, CHR 0xBB, CHR 0xBF]]"

definition startsWith :: "string \<Rightarrow> string \<Rightarrow> bool" where
  "startsWith s p = (take (length p) s = p)"

function trimStart :: "string \<Rightarrow> string" where
  "trimStart s =
     (case find (startsWith s) white_space of
        None \<Rightarrow> s
      | Some w \<Rightarrow> trimStart (drop (length w) s))"
  by pat_completeness auto
termination
proof (relation "measure length")
  show "wf (measure length)" by simp
next
  fix s :: string and w
  assume "find (startsWith s) white_space = Some w"
  then have "w \<in> set white_space" and "startsWith s w"
    by (auto simp: find_Some_iff)
  then have "w \<noteq> []" and "take (length w) s = w"
    by (auto simp: white_space_def startsWith_def)
  then have "s \<noteq> []" by auto
  with \<open>w \<noteq> []\<close> show "(drop (length w) s, s) \<in> measure length" by simp
qed

declare trimStart.simps [simp del]

text \<open>The value of a digit character in radixes up to 36, if it is one.\<close>

definition digit_value :: "char \<Rightarrow> nat option" where
  "digit_value c =
     (let n = (of_char c :: nat) in
      if 48 \<le> n \<and> n \<le> 57 then Some (n - 48)
      else if 97 \<le> n \<and> n \<le> 122 then Some (n - 87)
      else if 65 \<le> n \<and> n \<le> 90 then Some (n - 55)
      else None)"

definition is_digit :: "nat \<Rightarrow> char \<Rightarrow> bool" where
  "is_digit R c = (case digit_value c of None \<Rightarrow> False | Some d \<Rightarrow> d < R)"

definition digits_value :: "nat \<Rightarrow> string \<Rightarrow> nat" where
  "digits_value R z =
     foldl (\<lambda>acc c. acc * R + (case digit_value c of None \<Rightarrow> 0 | Some d \<Rightarrow> d)) 0 z"

text \<open>
  \<open>parseInt(string)\<close> with no radix: skip white space, read a sign, read a \<open>0x\<close>
  prefix (radix 16, else 10), take the longest prefix of digits; \<open>NaN\<close> if it is empty.
\<close>

definition parseInt :: "string \<Rightarrow> js_number" where
  "parseInt str =
     (let s = trimStart str;
          sign = (if startsWith s ''-'' then - 1 else 1);
          s1 = (if startsWith s ''+'' \<or> startsWith s ''-'' then drop 1 s else s);
          hex = (startsWith s1 ''0x'' \<or> startsWith s1 ''0X'');
          R = (if hex then 16 else 10);
          s2 = (if hex then drop 2 s1 else s1);
          z = takeWhile (is_digit R) s2
      in if z = [] then NaN else Num (sign * int (digits_value R z)))"

text \<open>A number is truthy unless it is zero or \<open>NaN\<close>; \<open>undefined\<close> is falsy.\<close>

fun truthy_number :: "js_number option \<Rightarrow> bool" where
  "truthy_number None = False"
| "truthy_number (Some NaN) = False"
| "truthy_number (Some (Num n)) = (n \<noteq> 0)"

subsection \<open>Strings\<close>

text \<open>\<open>s.split(' ')[0]\<close>: the part of \<open>s\<close> before its first space.\<close>

definition split_first :: "string \<Rightarrow> string" where
  "split_first s = takeWhile (\<lambda>c. c \<noteq> CHR '' '') s"

text \<open>\<open>xs.join(sep)\<close>.\<close>

fun join :: "string \<Rightarrow> string list \<Rightarrow> string" where
  "join sep [] = []"
| "join sep [x] = x"
| "join sep (x # y # ys) = x @ sep @ join sep (y # ys)"

text \<open>The decimal rendering of an integer in a template string.\<close>

fun nat_to_string :: "nat \<Rightarrow> string" where
  "nat_to_string n =
     (if n < 10 then [''0123456789'' ! n]
      else nat_to_string (n div 10) @ [''0123456789'' ! (n mod 10)])"

declare nat_to_string.simps [simp del]

definition number_to_string :: "int \<Rightarrow> string" where
  "number_to_string i = (if i < 0 then ''-'' @ nat_to_string (nat (- i)) else nat_to_string (nat i))"

section \<open>storage.ts: class MemStorage\<close>

record mem_storage =
  commands :: "(int, command) js_map"
  logs :: "log list"
  botStats :: "bot_stat option"
  commandsIdCounter :: int
  logsIdCounter :: int

text \<open>
  \<open>counter++\<close> on a double that counts up from 1. Below \<open>2^53\<close> every integer is a
  double and \<open>n + 1\<close> is exact. \<open>2^53 + 1\<close> is not a double: the sum rounds to even,
  back to \<open>2^53\<close>, and the counter stays there. The counters start at 1 and nothing
  else writes them, so they range over 1 to \<open>2^53\<close>.
\<close>

definition increment :: "int \<Rightarrow> int" where
  "increment n = (if n < 2 ^ 53 then n + 1 else n)"

text \<open>The methods. One that mutates returns its result and the store after the call.\<close>

definition getCommands :: "mem_storage \<Rightarrow> command list" where
  "getCommands s = map_values (commands s)"

definition getCommand :: "mem_storage \<Rightarrow> int \<Rightarrow> command option" where
  "getCommand s i = map_get (commands s) i"

definition getCommandByName :: "mem_storage \<Rightarrow> string \<Rightarrow> command option" where
  "getCommandByName s n = find (\<lambda>cmd. name cmd = n) (map_values (commands s))"

definition createCommand :: "insert_command \<Rightarrow> time \<Rightarrow> mem_storage \<Rightarrow> command \<times> mem_storage" where
  "createCommand cmd now s =
     (let i = commandsIdCounter s;
          s1 = s\<lparr>commandsIdCounter := increment (commandsIdCounter s)\<rparr>;
          newCommand = \<lparr>name = name cmd, description = description cmd, usage = usage cmd,
                        active = active cmd, id_command = i, createdAt = now\<rparr>
      in (newCommand, s1\<lparr>commands := map_set i newCommand (commands s1)\<rparr>))"

text \<open>\<open>{ ...existingCommand, ...command }\<close>: the keys present in the partial record win.\<close>

definition spread_partial :: "command \<Rightarrow> partial_insert_command \<Rightarrow> command" where
  "spread_partial c p =
     c\<lparr>name := (case name_opt p of None \<Rightarrow> name c | Some v \<Rightarrow> v),
       description := (case description_opt p of None \<Rightarrow> description c | Some v \<Rightarrow> v),
       usage := (case usage_opt p of None \<Rightarrow> usage c | Some v \<Rightarrow> v),
       active := (case active_opt p of None \<Rightarrow> active c | Some v \<Rightarrow> v)\<rparr>"

definition updateCommand ::
  "int \<Rightarrow> partial_insert_command \<Rightarrow> mem_storage \<Rightarrow> command option \<times> mem_storage" where
  "updateCommand i p s =
     (case map_get (commands s) i of
        None \<Rightarrow> (None, s)
      | Some existingCommand \<Rightarrow>
          (let updatedCommand = spread_partial existingCommand p
           in (Some updatedCommand, s\<lparr>commands := map_set i updatedCommand (commands s)\<rparr>)))"

definition deleteCommand :: "int \<Rightarrow> mem_storage \<Rightarrow> bool \<times> mem_storage" where
  "deleteCommand i s =
     (map_has (commands s) i, s\<lparr>commands := map_delete i (commands s)\<rparr>)"

text \<open>
  \<open>getLogs\<close> sorts a copy of the array (\<open>[...this.logs]\<close>), newest first, and guards the
  slice by the truthiness of \<open>limit\<close>.
\<close>

definition by_timestamp_desc :: "log \<Rightarrow> log \<Rightarrow> int" where
  "by_timestamp_desc a b = timestamp b - timestamp a"

definition getLogs :: "js_number option \<Rightarrow> mem_storage \<Rightarrow> log list \<times> mem_storage" where
  "getLogs limit s =
     (let copy = logs s;
          sortedLogs = array_sort by_timestamp_desc copy
      in ((if truthy_number limit
           then (case limit of Some (Num n) \<Rightarrow> slice0 sortedLogs n | _ \<Rightarrow> sortedLogs)
           else sortedLogs), s))"

definition createLog :: "insert_log \<Rightarrow> time \<Rightarrow> mem_storage \<Rightarrow> log \<times> mem_storage" where
  "createLog l now s =
     (let i = logsIdCounter s;
          s1 = s\<lparr>logsIdCounter := increment (logsIdCounter s)\<rparr>;
          newLog = \<lparr>eventType = eventType l, server = server l, user = user l,
                    details = details l, id_log = i, timestamp = now\<rparr>
      in (newLog, s1\<lparr>logs := logs s1 @ [newLog]\<rparr>))"

definition getBotStats :: "mem_storage \<Rightarrow> bot_stat option" where
  "getBotStats s = botStats s"

definition updateBotStats :: "insert_bot_stat \<Rightarrow> mem_storage \<Rightarrow> bot_stat \<times> mem_storage" where
  "updateBotStats st s =
     (let b = \<lparr>uptime = uptime st, servers = servers st, commands_stat = commands_stat st,
               memoryUsage = memoryUsage st, apiLatency = apiLatency st,
               startedAt = startedAt st, updatedAt = updatedAt st, id_stat = 1\<rparr>
      in (b, s\<lparr>botStats := Some b\<rparr>))"

subsection \<open>The constructor\<close>

definition defaultCommands :: "insert_command list" where
  "defaultCommands =
     [\<lparr>name = ''ping'',
       description = ''Checks the bot's response time and health status.'',
       usage = ''/ping'', active = True\<rparr>,
      \<lparr>name = ''help'',
       description = ''Displays a list of available commands and their usage.'',
       usage = ''/help [command]'', active = True\<rparr>,
      \<lparr>name = ''uptime'',
       description = ''Shows how long the bot has been online without interruption.'',
       usage = ''/uptime'', active = True\<rparr>,
      \<lparr>name = ''stats'',
       description = ''Displays bot statistics including servers, users, and commands.'',
       usage = ''/stats'', active = True\<rparr>]"

definition blank_storage :: mem_storage where
  "blank_storage =
     \<lparr>commands = [], logs = [], botStats = None, commandsIdCounter = 1, logsIdCounter = 1\<rparr>"

text \<open>
  \<open>clk k\<close> is the clock at the constructor's \<open>k\<close>-th reading: one for each default
  command, then the \<open>now\<close> of the statistics.
\<close>

definition MemStorage :: "(nat \<Rightarrow> time) \<Rightarrow> mem_storage" where
  "MemStorage clk =
     (let s = foldl (\<lambda>s (k, cmd). snd (createCommand cmd (clk k) s)) blank_storage
                (zip [0 ..< length defaultCommands] defaultCommands);
          now = clk (length defaultCommands)
      in snd (updateBotStats
               \<lparr>uptime = ''0d 0h 0m'', servers = 0,
                commands_stat = int (length defaultCommands), memoryUsage = ''0 MB'',
                apiLatency = 0, startedAt = now, updatedAt = now\<rparr> s))"

subsection \<open>Sequences of calls on the store\<close>

datatype storage_call =
    CreateCommand insert_command time
  | UpdateCommand int partial_insert_command
  | DeleteCommand int
  | CreateLog insert_log time
  | UpdateBotStats insert_bot_stat

fun exec :: "storage_call \<Rightarrow> mem_storage \<Rightarrow> mem_storage" where
  "exec (CreateCommand c t) s = snd (createCommand c t s)"
| "exec (UpdateCommand i p) s = snd (updateCommand i p s)"
| "exec (DeleteCommand i) s = snd (deleteCommand i s)"
| "exec (CreateLog l t) s = snd (createLog l t s)"
| "exec (UpdateBotStats st) s = snd (updateBotStats st s)"

fun run :: "storage_call list \<Rightarrow> mem_storage \<Rightarrow> mem_storage" where
  "run [] s = s"
| "run (c # cs) s = run cs (exec c s)"


section \<open>routes.ts: the request handlers\<close>

text \<open>
  A handler maps the request and the store to the response and the store after it.
  Each handler runs from its first line to its response without another request's
  calls in between.
\<close>

datatype body =
    Message string
  | MessageErrors string "string list"
  | MessageResponse string string
  | CommandJson command
  | LogsJson "log list"
  | NoBody

record response =
  status :: nat
  body :: body






text \<open>
  \<open>GET /api/logs\<close>. \<open>query_limit\<close> is \<open>req.query.limit\<close> when it is a string, \<open>None\<close>
  when the query has no \<open>limit\<close>; the empty string is falsy.
\<close>

definition get_logs_route :: "string option \<Rightarrow> mem_storage \<Rightarrow> response \<times> mem_storage" where
  "get_logs_route query_limit s =
     (let limit = (case query_limit of
                     None \<Rightarrow> None
                   | Some v \<Rightarrow> if v \<noteq> [] then Some (parseInt v) else None);
          (ls, s') = getLogs limit s
      in (\<lparr>status = 200, body = LogsJson ls\<rparr>, s'))"

text \<open>
  \<open>POST /api/test-command\<close>. The \<open>command\<close> key of the JSON body is absent, a string,
  or another JSON value, of which only the truthiness matters: a truthy one has no
  \<open>startsWith\<close>, the call throws and the \<open>catch\<close> answers 500.
\<close>

datatype json_field = Absent | JString string | JOther bool

definition line_feed :: string where
  "line_feed = [CHR 0x0A]"

text \<open>The table-tennis emoji U+1F3D3 of the ping template.\<close>

definition ping_pong :: string where
  "ping_pong = [CHR 0xF0, CHR 0x9F, CHR 0x8F, CHR 0x93]"

text \<open>\<open>x || 0\<close> on a number that may be missing, and \<open>x || d\<close> on a string.\<close>

definition or_zero :: "int option \<Rightarrow> int" where
  "or_zero x = (case x of None \<Rightarrow> 0 | Some n \<Rightarrow> n)"

definition or_default :: "string option \<Rightarrow> string \<Rightarrow> string" where
  "or_default x d = (case x of None \<Rightarrow> d | Some v \<Rightarrow> if v = [] then d else v)"

text \<open>
  The \<open>switch\<close> on the command name. \<open>roll\<close> is \<open>Math.floor(Math.random() * 50)\<close>,
  a number from 0 to 49.
\<close>

definition test_response :: "string \<Rightarrow> string \<Rightarrow> nat \<Rightarrow> mem_storage \<Rightarrow> string" where
  "test_response commandName command roll s =
     (if commandName = ''ping'' then
        ''Pong! '' @ ping_pong @ '' Bot latency: '' @ number_to_string (int roll + 20) @ ''ms''
          @ line_feed @ ''Bot is online and functioning properly!''
      else if commandName = ''help'' then
        ''Available commands:'' @ line_feed @
          join line_feed
            (map (\<lambda>c. ''/'' @ name c @ '' - '' @ description c) (filter active (getCommands s)))
      else if commandName = ''uptime'' then
        ''Bot has been online for '' @ or_default (map_option uptime (getBotStats s)) ''unknown''
      else if commandName = ''stats'' then
        (let botStats = getBotStats s in
         ''Bot Stats:'' @ line_feed
           @ ''Servers: '' @ number_to_string (or_zero (map_option servers botStats)) @ line_feed
           @ ''Commands: '' @ number_to_string (or_zero (map_option commands_stat botStats))
           @ line_feed
           @ ''Memory Usage: '' @ or_default (map_option memoryUsage botStats) ''0 MB''
           @ line_feed
           @ ''API Latency: '' @ number_to_string (or_zero (map_option apiLatency botStats))
           @ ''ms'')
      else ''Executed command: '' @ command)"

definition command_name_of :: "string \<Rightarrow> string" where
  "command_name_of command =
     (if startsWith command ''/'' then split_first (drop 1 command) else split_first command)"

definition command_required :: response where
  "command_required = \<lparr>status = 400, body = Message ''Command is required''\<rparr>"

definition test_log :: "string \<Rightarrow> insert_log" where
  "test_log command =
     \<lparr>eventType = ''Test'', server = ''Dashboard'', user = ''User'',
      details = ''Tested command: '' @ command\<rparr>"

definition test_command_route ::
  "json_field \<Rightarrow> nat \<Rightarrow> time \<Rightarrow> mem_storage \<Rightarrow> response \<times> mem_storage" where
  "test_command_route field roll now s =
     (case field of
        Absent \<Rightarrow> (command_required, s)
      | JOther truthy \<Rightarrow>
          if truthy then (\<lparr>status = 500, body = Message ''Failed to test command''\<rparr>, s)
          else (command_required, s)
      | JString command \<Rightarrow>
          if command = [] then (command_required, s)
          else
            (let commandName = command_name_of command in
             case getCommandByName s commandName of
               None \<Rightarrow>
                 (\<lparr>status = 404,
                   body = MessageResponse (''Command '' @ [CHR 0x27] @ commandName @ [CHR 0x27] @ '' not found'')
                            (''Unknown command: '' @ commandName)\<rparr>, s)
             | Some cmd \<Rightarrow>
                 (let response = test_response commandName command roll s;
                      (l, s') = createLog (test_log command) now s
                  in (\<lparr>status = 200, body = MessageResponse ''Command executed'' response\<rparr>,
                      s'))))"

section \<open>Uniqueness of ids and names\<close>

definition names_unique :: "mem_storage \<Rightarrow> bool" where
  "names_unique s = distinct (map name (getCommands s))"

definition ids_unique :: "mem_storage \<Rightarrow> bool" where
  "ids_unique s = distinct (map id_command (getCommands s))"

text \<open>Every key of the map is the id of its command, and no key occurs twice.\<close>

definition well_keyed :: "mem_storage \<Rightarrow> bool" where
  "well_keyed s =
     (distinct (map fst (commands s)) \<and>
      list_all (\<lambda>p. id_command (snd p) = fst p) (commands s))"

text \<open>
  The call brings no name that another command of the store holds: a created command
  has a new name, an update that sets the name sets one that no command under another
  id has.
\<close>

fun name_is_free :: "storage_call \<Rightarrow> mem_storage \<Rightarrow> bool" where
  "name_is_free (CreateCommand c t) s = (name c \<notin> set (map name (getCommands s)))"
| "name_is_free (UpdateCommand i p) s =
     (case name_opt p of
        None \<Rightarrow> True
      | Some n \<Rightarrow> list_all (\<lambda>q. fst q = i \<or> name (snd q) \<noteq> n) (commands s))"
| "name_is_free c s = True"

fun names_free :: "storage_call list \<Rightarrow> mem_storage \<Rightarrow> bool" where
  "names_free [] s = True"
| "names_free (c # cs) s = (name_is_free c s \<and> names_free cs (exec c s))"

section \<open>Example stores\<close>

definition example_clock :: "nat \<Rightarrow> time" where
  "example_clock k = int k"

definition example_storage :: mem_storage where
  "example_storage = MemStorage example_clock"

text \<open>Five logs, written at the times 10, 30, 20, 30 and 5.\<close>

definition example_logs_storage :: mem_storage where
  "example_logs_storage =
     run [CreateLog (test_log ''a'') 10, CreateLog (test_log ''b'') 30,
          CreateLog (test_log ''c'') 20, CreateLog (test_log ''d'') 30,
          CreateLog (test_log ''e'') 5] example_storage"

text \<open>
  A sequence of calls: create a command echo (it gets the id 5), rename it to echo2,
  delete ping.
\<close>

definition echo_calls :: "storage_call list" where
  "echo_calls =
     [CreateCommand \<lparr>name = ''echo'', description = ''d'', usage = ''/echo'', active = True\<rparr> 9,
      UpdateCommand 5 \<lparr>name_opt = Some ''echo2'', description_opt = None, usage_opt = None,
                       active_opt = None\<rparr>,
      DeleteCommand 1]"



text \<open>The logs in the body of a response, none if the body is of another kind.\<close>

definition sent_logs :: "response \<Rightarrow> log list" where
  "sent_logs r = (case body r of LogsJson ls \<Rightarrow> ls | _ \<Rightarrow> [])"

text \<open>
  The words of the specification, a limit that is parseable as an integer, read on the
  text of the query value: it is a decimal numeral.
\<close>

definition integer_text :: "string \<Rightarrow> bool" where
  "integer_text v = (v \<noteq> [] \<and> list_all (\<lambda>c. c \<in> set ''0123456789'') v)"

section \<open>Facts about the library model\<close>

lemma map_of_map_set: "map_of (map_set k v m) = (map_of m)(k \<mapsto> v)"
  by (induction m) (auto simp: fun_eq_iff)

lemma keys_map_set: "fst ` set (map_set k v m) = insert k (fst ` set m)"
  by (induction m) auto

lemma map_fst_map_set_present: "k \<in> set (map fst m) \<Longrightarrow> map fst (map_set k v m) = map fst m"
  by (induction m) auto

lemma set_map_set: "set (map_set k v m) \<subseteq> insert (k, v) (set m)"
  by (induction m) auto

lemma distinct_keys_map_set: "distinct (map fst m) \<Longrightarrow> distinct (map fst (map_set k v m))"
  by (induction m) (auto simp: keys_map_set)


text \<open>The comparator of \<open>getLogs\<close> sorts as the library's stable sort on the negated timestamp.\<close>

lemma insort_cmp_timestamp:
  "insort_cmp by_timestamp_desc x xs = insort_key (\<lambda>l. - timestamp l) x xs"
  by (induction xs) (auto simp: by_timestamp_desc_def)

lemma array_sort_timestamp:
  "array_sort by_timestamp_desc xs = sort_key (\<lambda>l. - timestamp l) xs"
  by (induction xs) (simp_all add: array_sort_def insort_cmp_timestamp)

section \<open>The constructor\<close>

lemma MemStorage_eval:
  "MemStorage clk =
     \<lparr>commands =
        [(1, \<lparr>name = ''ping'',
               description = ''Checks the bot's response time and health status.'',
               usage = ''/ping'', active = True, id_command = 1, createdAt = clk 0\<rparr>),
         (2, \<lparr>name = ''help'',
               description = ''Displays a list of available commands and their usage.'',
               usage = ''/help [command]'', active = True, id_command = 2, createdAt = clk 1\<rparr>),
         (3, \<lparr>name = ''uptime'',
               description = ''Shows how long the bot has been online without interruption.'',
               usage = ''/uptime'', active = True, id_command = 3, createdAt = clk 2\<rparr>),
         (4, \<lparr>name = ''stats'',
               description = ''Displays bot statistics including servers, users, and commands.'',
               usage = ''/stats'', active = True, id_command = 4, createdAt = clk 3\<rparr>)],
      logs = [],
      botStats = Some \<lparr>uptime = ''0d 0h 0m'', servers = 0, commands_stat = 4,
                        memoryUsage = ''0 MB'', apiLatency = 0, startedAt = clk 4,
                        updatedAt = clk 4, id_stat = 1\<rparr>,
      commandsIdCounter = 5, logsIdCounter = 1\<rparr>"
  by (simp add: MemStorage_def defaultCommands_def blank_storage_def createCommand_def
      updateBotStats_def increment_def Let_def upt_rec eval_nat_numeral)

lemma botStats_exec: "botStats s \<noteq> None \<Longrightarrow> botStats (exec c s) \<noteq> None"
  by (cases c)
    (auto simp: createCommand_def updateCommand_def deleteCommand_def createLog_def
      updateBotStats_def Let_def split: option.splits)

lemma botStats_run: "botStats s \<noteq> None \<Longrightarrow> botStats (run cs s) \<noteq> None"
proof (induction cs arbitrary: s)
  case Nil
  then show ?case by simp
next
  case (Cons a cs)
  from Cons.prems have "botStats (exec a s) \<noteq> None" by (rule botStats_exec)
  then have "botStats (run cs (exec a s)) \<noteq> None" by (rule Cons.IH)
  then show ?case by simp
qed

text \<open>
  C10. A freshly constructed store is not empty: \<open>getCommands\<close> returns the four active
  commands ping, help, uptime and stats with the ids 1 to 4; the statistics record has
  id 1, 0 servers, 4 commands and latency 0; and \<open>getBotStats\<close> is not absent, neither
  right after construction nor after any sequence of calls on the store.
\<close>

theorem constructor_seeds_store:
  "getCommands (MemStorage clk) =
     [\<lparr>name = ''ping'',
       description = ''Checks the bot's response time and health status.'',
       usage = ''/ping'', active = True, id_command = 1, createdAt = clk 0\<rparr>,
      \<lparr>name = ''help'',
       description = ''Displays a list of available commands and their usage.'',
       usage = ''/help [command]'', active = True, id_command = 2, createdAt = clk 1\<rparr>,
      \<lparr>name = ''uptime'',
       description = ''Shows how long the bot has been online without interruption.'',
       usage = ''/uptime'', active = True, id_command = 3, createdAt = clk 2\<rparr>,
      \<lparr>name = ''stats'',
       description = ''Displays bot statistics including servers, users, and commands.'',
       usage = ''/stats'', active = True, id_command = 4, createdAt = clk 3\<rparr>] \<and>
   length (getCommands (MemStorage clk)) = 4 \<and>
   getBotStats (MemStorage clk) =
     Some \<lparr>uptime = ''0d 0h 0m'', servers = 0, commands_stat = 4, memoryUsage = ''0 MB'',
           apiLatency = 0, startedAt = clk 4, updatedAt = clk 4, id_stat = 1\<rparr> \<and>
   getBotStats (run calls (MemStorage clk)) \<noteq> None"
proof -
  have "botStats (MemStorage clk) \<noteq> None" by (simp add: MemStorage_eval)
  then have "getBotStats (run calls (MemStorage clk)) \<noteq> None"
    unfolding getBotStats_def by (rule botStats_run)
  then show ?thesis
    by (simp add: MemStorage_eval getCommands_def map_values_def getBotStats_def)
qed

section \<open>Partial update\<close>

lemma getCommand_in_set: "getCommand s i = Some c \<Longrightarrow> (i, c) \<in> set (commands s)"
  by (simp add: getCommand_def map_get_def map_of_SomeD)

lemma spread_partial_id: "id_command (spread_partial c p) = id_command c"
  by (simp add: spread_partial_def)

lemma spread_partial_createdAt: "createdAt (spread_partial c p) = createdAt c"
  by (simp add: spread_partial_def)

lemma updateCommand_present:
  "getCommand s i = Some c \<Longrightarrow>
   updateCommand i p s =
     (Some (spread_partial c p), s\<lparr>commands := map_set i (spread_partial c p) (commands s)\<rparr>)"
  by (simp add: updateCommand_def getCommand_def Let_def)

text \<open>
  C5. For a command \<open>c\<close> stored under the id \<open>i\<close>, \<open>updateCommand(i, {active: false})\<close>
  returns \<open>c\<close> with \<open>active\<close> false and every other field as before. For any partial
  record the result takes the supplied fields and keeps the others, \<open>id\<close> and
  \<open>createdAt\<close> among them; the command is stored under \<open>i\<close>, every other id maps to
  the command it mapped to, the order of the keys, the logs, the statistics and both
  counters are as before.
\<close>

theorem updateCommand_frame:
  assumes "getCommand s i = Some c"
  shows "updateCommand i \<lparr>name_opt = None, description_opt = None, usage_opt = None,
                           active_opt = Some False\<rparr> s =
           (Some (c\<lparr>active := False\<rparr>),
            s\<lparr>commands := map_set i (c\<lparr>active := False\<rparr>) (commands s)\<rparr>) \<and>
         fst (updateCommand i p s) = Some (spread_partial c p) \<and>
         getCommand (snd (updateCommand i p s)) i = Some (spread_partial c p) \<and>
         id_command (spread_partial c p) = id_command c \<and>
         createdAt (spread_partial c p) = createdAt c \<and>
         name (spread_partial c p) = (case name_opt p of None \<Rightarrow> name c | Some v \<Rightarrow> v) \<and>
         description (spread_partial c p) =
           (case description_opt p of None \<Rightarrow> description c | Some v \<Rightarrow> v) \<and>
         usage (spread_partial c p) = (case usage_opt p of None \<Rightarrow> usage c | Some v \<Rightarrow> v) \<and>
         active (spread_partial c p) = (case active_opt p of None \<Rightarrow> active c | Some v \<Rightarrow> v) \<and>
         (\<forall>j. j \<noteq> i \<longrightarrow> getCommand (snd (updateCommand i p s)) j = getCommand s j) \<and>
         map fst (commands (snd (updateCommand i p s))) = map fst (commands s) \<and>
         logs (snd (updateCommand i p s)) = logs s \<and>
         botStats (snd (updateCommand i p s)) = botStats s \<and>
         commandsIdCounter (snd (updateCommand i p s)) = commandsIdCounter s \<and>
         logsIdCounter (snd (updateCommand i p s)) = logsIdCounter s"
proof -
  have key: "i \<in> set (map fst (commands s))"
    using getCommand_in_set [OF assms] by force
  have upd: "updateCommand i p s =
      (Some (spread_partial c p), s\<lparr>commands := map_set i (spread_partial c p) (commands s)\<rparr>)"
    for p using assms by (rule updateCommand_present)
  have off: "spread_partial c \<lparr>name_opt = None, description_opt = None, usage_opt = None,
                                active_opt = Some False\<rparr> = c\<lparr>active := False\<rparr>"
    by (simp add: spread_partial_def)
  have fields: "name (spread_partial c p) = (case name_opt p of None \<Rightarrow> name c | Some v \<Rightarrow> v)"
    "description (spread_partial c p) =
       (case description_opt p of None \<Rightarrow> description c | Some v \<Rightarrow> v)"
    "usage (spread_partial c p) = (case usage_opt p of None \<Rightarrow> usage c | Some v \<Rightarrow> v)"
    "active (spread_partial c p) = (case active_opt p of None \<Rightarrow> active c | Some v \<Rightarrow> v)"
    by (simp_all add: spread_partial_def)
  have others: "\<forall>j. j \<noteq> i \<longrightarrow> getCommand (snd (updateCommand i p s)) j = getCommand s j"
    by (simp add: upd getCommand_def map_get_def map_of_map_set)
  have self: "getCommand (snd (updateCommand i p s)) i = Some (spread_partial c p)"
    by (simp add: upd getCommand_def map_get_def map_of_map_set)
  have keys: "map fst (commands (snd (updateCommand i p s))) = map fst (commands s)"
    using key by (simp add: upd map_fst_map_set_present)
  show ?thesis
    using off fields others self keys
    by (simp add: upd spread_partial_id spread_partial_createdAt)
qed

text \<open>
  At the example store: switching off help (id 2) returns help inactive with its name,
  and ping (id 1) is still stored as it was.
\<close>

theorem updateCommand_frame_witness:
  "getCommand example_storage 2 \<noteq> None \<and>
   map_option (\<lambda>c. (id_command c, name c, active c, createdAt c))
     (fst (updateCommand 2 \<lparr>name_opt = None, description_opt = None, usage_opt = None,
                             active_opt = Some False\<rparr> example_storage)) =
     Some (2, ''help'', False, 1) \<and>
   getCommand (snd (updateCommand 2 \<lparr>name_opt = None, description_opt = None,
                      usage_opt = None, active_opt = Some False\<rparr> example_storage)) 1 =
     getCommand example_storage 1"
proof -
  let ?c = "\<lparr>name = ''help'',
       description = ''Displays a list of available commands and their usage.'',
       usage = ''/help [command]'', active = True, id_command = 2, createdAt = 1\<rparr>"
  have h: "getCommand example_storage 2 = Some ?c"
    by (simp add: example_storage_def MemStorage_eval getCommand_def map_get_def
        example_clock_def)
  let ?p = "\<lparr>name_opt = None, description_opt = None, usage_opt = None,
             active_opt = Some False\<rparr>"
  note t = updateCommand_frame [OF h, of ?p]
  have a: "updateCommand 2 ?p example_storage =
      (Some (?c\<lparr>active := False\<rparr>),
       example_storage\<lparr>commands := map_set 2 (?c\<lparr>active := False\<rparr>) (commands example_storage)\<rparr>)"
    using t by (rule conjunct1)
  have ne: "(1::int) \<noteq> 2" by simp
  have b: "getCommand (snd (updateCommand 2 ?p example_storage)) 1 = getCommand example_storage 1"
    using t ne by blast
  have c: "fst (updateCommand 2 ?p example_storage) = Some (?c\<lparr>active := False\<rparr>)"
    by (simp only: a fst_conv)
  show ?thesis
    using h b by (simp add: c)
qed

section \<open>Reading the logs\<close>

lemma getLogs_None: "getLogs None s = (sort_key (\<lambda>l. - timestamp l) (logs s), s)"
  by (simp add: getLogs_def array_sort_timestamp)

lemma getLogs_NaN: "getLogs (Some NaN) s = getLogs None s"
  by (simp add: getLogs_def)



lemma getLogs_descending:
  assumes "i < j" and "j < length (fst (getLogs None s))"
  shows "timestamp (fst (getLogs None s) ! j) \<le> timestamp (fst (getLogs None s) ! i)"
proof -
  let ?r = "sort_key (\<lambda>l. - timestamp l) (logs s)"
  have "sorted (map (\<lambda>l. - timestamp l) ?r)" by (rule sorted_sort_key)
  moreover have "i \<le> j" "j < length (map (\<lambda>l. - timestamp l) ?r)"
    using assms by (simp_all add: getLogs_None)
  ultimately have "map (\<lambda>l. - timestamp l) ?r ! i \<le> map (\<lambda>l. - timestamp l) ?r ! j"
    by (rule sorted_nth_mono)
  then show ?thesis using assms by (simp add: getLogs_None)
qed

lemma example_logs_sorted:
  "map (\<lambda>l. (id_log l, timestamp l)) (fst (getLogs None example_logs_storage)) =
     [(2, 30), (4, 30), (3, 20), (1, 10), (5, 5)]"
  by code_simp





text \<open>
  C4. For every store, the sequence that \<open>getLogs()\<close> returns is in descending
  timestamp order, strictly for entries with distinct timestamps; it holds exactly the
  stored entries, and the store is left as it was.
\<close>

theorem getLogs_sorted_descending:
  "(\<forall>i j. i < j \<and> j < length (fst (getLogs None s)) \<longrightarrow>
       timestamp (fst (getLogs None s) ! j) \<le> timestamp (fst (getLogs None s) ! i)) \<and>
   (\<forall>i j. i < j \<and> j < length (fst (getLogs None s)) \<and>
       timestamp (fst (getLogs None s) ! i) \<noteq> timestamp (fst (getLogs None s) ! j) \<longrightarrow>
       timestamp (fst (getLogs None s) ! j) < timestamp (fst (getLogs None s) ! i)) \<and>
   mset (fst (getLogs None s)) = mset (logs s) \<and>
   snd (getLogs None s) = s"
proof -
  have "mset (fst (getLogs None s)) = mset (logs s)" by (simp add: getLogs_None)
  moreover have "snd (getLogs None s) = s" by (simp add: getLogs_None)
  moreover have "\<forall>i j. i < j \<and> j < length (fst (getLogs None s)) \<longrightarrow>
       timestamp (fst (getLogs None s) ! j) \<le> timestamp (fst (getLogs None s) ! i)"
    using getLogs_descending by blast
  moreover have "\<forall>i j. i < j \<and> j < length (fst (getLogs None s)) \<and>
       timestamp (fst (getLogs None s) ! i) \<noteq> timestamp (fst (getLogs None s) ! j) \<longrightarrow>
       timestamp (fst (getLogs None s) ! j) < timestamp (fst (getLogs None s) ! i)"
    using getLogs_descending by (metis order_le_imp_less_or_eq)
  ultimately show ?thesis by blast
qed

text \<open>
  On the store with five logs: the entries at the positions 0 and 2 of the result have
  distinct timestamps, and the later position holds the older one.
\<close>

theorem getLogs_sorted_descending_witness:
  "(0::nat) < 2 \<and> 2 < length (fst (getLogs None example_logs_storage)) \<and>
   timestamp (fst (getLogs None example_logs_storage) ! 0) \<noteq>
     timestamp (fst (getLogs None example_logs_storage) ! 2) \<and>
   timestamp (fst (getLogs None example_logs_storage) ! 2) <
     timestamp (fst (getLogs None example_logs_storage) ! 0) \<and>
   logs (snd (getLogs None example_logs_storage)) = logs example_logs_storage"
proof -
  let ?r = "fst (getLogs None example_logs_storage)"
  have ts: "map timestamp ?r = [30, 30, 20, 10, 5]"
    using example_logs_sorted [THEN arg_cong, of "map snd"] by (simp add: comp_def)
  have len: "length ?r = 5"
    using ts [THEN arg_cong, of length] by simp
  have n1: "timestamp (?r ! 0) = 30"
    using ts [THEN arg_cong, of "\<lambda>xs. xs ! 0"] len by simp
  have n2: "timestamp (?r ! 2) = 20"
    using ts [THEN arg_cong, of "\<lambda>xs. xs ! 2"] len by simp
  have h: "(0::nat) < 2 \<and> 2 < length ?r \<and> timestamp (?r ! 0) \<noteq> timestamp (?r ! 2)"
    by (simp add: len n1 n2)
  note t = getLogs_sorted_descending [of example_logs_storage]
  from t have "\<forall>i j. i < j \<and> j < length ?r \<and> timestamp (?r ! i) \<noteq> timestamp (?r ! j) \<longrightarrow>
       timestamp (?r ! j) < timestamp (?r ! i)"
    by blast
  with h have lt: "timestamp (?r ! 2) < timestamp (?r ! 0)" by blast
  from t have "snd (getLogs None example_logs_storage) = example_logs_storage" by blast
  with h lt show ?thesis by simp
qed

text \<open>
  C9, as the code has it. A log-list request whose \<open>limit\<close> \<open>parseInt\<close> cannot read at all
  (it gives \<open>NaN\<close>) is answered as the request without a limit, and no error is raised:
  status 200, the store unchanged, and in the body all the stored logs, sorted by
  descending timestamp (entries of equal timestamp in their stored order).
\<close>

theorem get_logs_route_unparseable:
  assumes "isNaN (parseInt v)"
  shows "get_logs_route (Some v) s =
           (\<lparr>status = 200, body = LogsJson (sort_key (\<lambda>l. - timestamp l) (logs s))\<rparr>, s) \<and>
         mset (sort_key (\<lambda>l. - timestamp l) (logs s)) = mset (logs s) \<and>
         sorted_wrt (\<lambda>a b. timestamp b \<le> timestamp a)
           (sort_key (\<lambda>l. - timestamp l) (logs s)) \<and>
         get_logs_route (Some v) s = get_logs_route None s"
proof -
  have "sorted (map (\<lambda>l. - timestamp l) (sort_key (\<lambda>l. - timestamp l) (logs s)))"
    by (rule sorted_sort_key)
  then have "sorted_wrt (\<lambda>a b. timestamp b \<le> timestamp a)
      (sort_key (\<lambda>l. - timestamp l) (logs s))"
    by (simp add: sorted_map)
  then show ?thesis
    using assms by (simp add: get_logs_route_def isNaN_def getLogs_NaN getLogs_None)
qed

lemma parseInt_abc: "isNaN (parseInt ''abc'')"
  by code_simp

lemma example_logs_sort_key:
  "map (\<lambda>l. (id_log l, timestamp l))
     (sort_key (\<lambda>l. - timestamp l) (logs example_logs_storage)) =
     [(2, 30), (4, 30), (3, 20), (1, 10), (5, 5)]"
  by code_simp

text \<open>\<open>GET /api/logs?limit=abc\<close> on the store with five logs returns all five, newest first.\<close>

theorem get_logs_route_unparseable_witness:
  "isNaN (parseInt ''abc'') \<and>
   status (fst (get_logs_route (Some ''abc'') example_logs_storage)) = 200 \<and>
   map (\<lambda>l. (id_log l, timestamp l))
     (sent_logs (fst (get_logs_route (Some ''abc'') example_logs_storage))) =
     [(2, 30), (4, 30), (3, 20), (1, 10), (5, 5)] \<and>
   snd (get_logs_route (Some ''abc'') example_logs_storage) = example_logs_storage"
proof -
  note t = get_logs_route_unparseable [OF parseInt_abc, of example_logs_storage]
  from t have b: "get_logs_route (Some ''abc'') example_logs_storage =
      (\<lparr>status = 200,
        body = LogsJson (sort_key (\<lambda>l. - timestamp l) (logs example_logs_storage))\<rparr>,
       example_logs_storage)"
    by (rule conjunct1)
  show ?thesis
    using parseInt_abc by (simp add: b sent_logs_def example_logs_sort_key)
qed

text \<open>
  C9 as stated fails for a limit that is not an integer and of which \<open>parseInt\<close> reads a
  prefix: \<open>2abc\<close> is taken for the limit 2 and \<open>1.5\<close> for the limit 1, so two logs and
  one log are returned, not all five.
\<close>

lemma prefix_limit_routes:
  "map id_log (sent_logs (fst (get_logs_route (Some ''2abc'') example_logs_storage))) = [2, 4] \<and>
   map id_log (sent_logs (fst (get_logs_route (Some ''1.5'') example_logs_storage))) = [2] \<and>
   map id_log (sent_logs (fst (get_logs_route None example_logs_storage))) = [2, 4, 3, 1, 5]"
  by code_simp

lemma prefix_limits_no_integers: "\<not> integer_text ''2abc'' \<and> \<not> integer_text ''1.5''"
  by code_simp

theorem get_logs_route_prefix_counterexample:
  "\<not> integer_text ''2abc'' \<and>
   map id_log (sent_logs (fst (get_logs_route (Some ''2abc'') example_logs_storage))) = [2, 4] \<and>
   \<not> integer_text ''1.5'' \<and>
   map id_log (sent_logs (fst (get_logs_route (Some ''1.5'') example_logs_storage))) = [2] \<and>
   map id_log (sent_logs (fst (get_logs_route None example_logs_storage))) = [2, 4, 3, 1, 5]"
  using prefix_limit_routes prefix_limits_no_integers by blast

section \<open>The id parameter of the command routes\<close>











section \<open>The test-command route\<close>

lemma command_name_of_alt:
  "command \<noteq> [] \<Longrightarrow>
   command_name_of command =
     takeWhile (\<lambda>c. c \<noteq> CHR '' '') (if hd command = CHR ''/'' then tl command else command)"
  by (cases command) (auto simp: command_name_of_def startsWith_def split_first_def)

text \<open>
  C7, as the code has it. For every non-empty command text whose token (the text
  without a leading slash, cut at the first space) is the name of no stored command,
  the route answers 404 with the message \<open>Command '<token>' not found\<close> and the response
  \<open>Unknown command: <token>\<close>, and leaves the store as it was.
\<close>

theorem test_command_unknown:
  assumes "command \<noteq> []"
    and "getCommandByName s (command_name_of command) = None"
  shows "test_command_route (JString command) roll now s =
           (\<lparr>status = 404,
             body = MessageResponse
                      (''Command '' @ [CHR 0x27] @ command_name_of command @ [CHR 0x27] @ '' not found'')
                      (''Unknown command: '' @ command_name_of command)\<rparr>, s) \<and>
         command_name_of command =
           takeWhile (\<lambda>c. c \<noteq> CHR '' '')
             (if hd command = CHR ''/'' then tl command else command)"
  using assms by (simp add: test_command_route_def Let_def command_name_of_alt)

lemma nonexistent_unknown:
  "getCommandByName example_storage (command_name_of ''/nonexistent'') = None"
  by code_simp

lemma nonexistent_token: "command_name_of ''/nonexistent'' = ''nonexistent''"
  by code_simp

theorem test_command_unknown_witness:
  "''/nonexistent'' \<noteq> [] \<and>
   getCommandByName example_storage (command_name_of ''/nonexistent'') = None \<and>
   test_command_route (JString ''/nonexistent'') 0 0 example_storage =
     (\<lparr>status = 404,
       body = MessageResponse ''Command 'nonexistent' not found''
                ''Unknown command: nonexistent''\<rparr>, example_storage)"
proof -
  have h: "''/nonexistent'' \<noteq> []" by simp
  note t = test_command_unknown [OF h nonexistent_unknown, of 0 0]
  from t have "test_command_route (JString ''/nonexistent'') 0 0 example_storage =
      (\<lparr>status = 404,
        body = MessageResponse
                 (''Command '' @ [CHR 0x27] @ command_name_of ''/nonexistent'' @ [CHR 0x27]
                    @ '' not found'')
                 (''Unknown command: '' @ command_name_of ''/nonexistent'')\<rparr>, example_storage)"
    by (rule conjunct1)
  then show ?thesis using nonexistent_unknown by (simp add: nonexistent_token)
qed

text \<open>
  C7 as stated fails at the empty text: its token is empty and names no stored
  command, and the guard \<open>!command\<close> answers 400 before any lookup.
\<close>

lemma empty_unknown: "getCommandByName example_storage (command_name_of []) = None"
  by code_simp

theorem test_command_empty_counterexample:
  "getCommandByName example_storage (command_name_of []) = None \<and>
   status (fst (test_command_route (JString []) 0 0 example_storage)) = 400 \<and>
   body (fst (test_command_route (JString []) 0 0 example_storage)) =
     Message ''Command is required''"
  by (simp add: empty_unknown test_command_route_def command_required_def)

text \<open>
  C6, as the code has it. For every non-empty command text whose token names a stored
  command, the route answers 200 and appends to the logs one entry of type \<open>Test\<close> whose
  details are \<open>Tested command: \<close> followed by the text as it was sent.
\<close>

theorem test_command_logs:
  assumes "command \<noteq> []"
    and "getCommandByName s (command_name_of command) = Some cmd"
  shows "logs (snd (test_command_route (JString command) roll now s)) =
           logs s @ [\<lparr>eventType = ''Test'', server = ''Dashboard'', user = ''User'',
                      details = ''Tested command: '' @ command,
                      id_log = logsIdCounter s, timestamp = now\<rparr>] \<and>
         fst (test_command_route (JString command) roll now s) =
           \<lparr>status = 200,
            body = MessageResponse ''Command executed''
                     (test_response (command_name_of command) command roll s)\<rparr>"
  using assms
  by (simp add: test_command_route_def Let_def createLog_def test_log_def)

lemma ping_known:
  "getCommandByName example_storage (command_name_of ''/ping'') =
     Some \<lparr>name = ''ping'',
            description = ''Checks the bot's response time and health status.'',
            usage = ''/ping'', active = True, id_command = 1, createdAt = 0\<rparr>"
  by code_simp

lemma example_storage_logs: "logs example_storage = [] \<and> logsIdCounter example_storage = 1"
  by (simp add: example_storage_def MemStorage_eval)

theorem test_command_logs_witness:
  "''/ping'' \<noteq> [] \<and>
   getCommandByName example_storage (command_name_of ''/ping'') \<noteq> None \<and>
   logs (snd (test_command_route (JString ''/ping'') 3 100 example_storage)) =
     [\<lparr>eventType = ''Test'', server = ''Dashboard'', user = ''User'',
       details = ''Tested command: /ping'', id_log = 1, timestamp = 100\<rparr>] \<and>
   status (fst (test_command_route (JString ''/ping'') 3 100 example_storage)) = 200"
proof -
  have h: "''/ping'' \<noteq> []" by simp
  note t = test_command_logs [OF h ping_known, of 3 100]
  from t have a: "logs (snd (test_command_route (JString ''/ping'') 3 100 example_storage)) =
      logs example_storage @ [\<lparr>eventType = ''Test'', server = ''Dashboard'', user = ''User'',
        details = ''Tested command: '' @ ''/ping'',
        id_log = logsIdCounter example_storage, timestamp = 100\<rparr>]"
    by (rule conjunct1)
  from t have b: "fst (test_command_route (JString ''/ping'') 3 100 example_storage) =
      \<lparr>status = 200,
       body = MessageResponse ''Command executed''
                (test_response (command_name_of ''/ping'') ''/ping'' 3 example_storage)\<rparr>"
    by (rule conjunct2)
  show ?thesis
    by (simp add: a b ping_known example_storage_logs)
qed

text \<open>
  C6 as stated fails for an unknown command: \<open>/nonexistent\<close> is answered 404 by
  the early return, and no log entry is written.
\<close>

lemma nonexistent_route:
  "test_command_route (JString ''/nonexistent'') 0 0 example_storage =
     (\<lparr>status = 404,
       body = MessageResponse ''Command 'nonexistent' not found''
                ''Unknown command: nonexistent''\<rparr>, example_storage)"
  by code_simp

theorem test_command_unknown_not_logged_counterexample:
  "status (fst (test_command_route (JString ''/nonexistent'') 0 0 example_storage)) = 404 \<and>
   logs (snd (test_command_route (JString ''/nonexistent'') 0 0 example_storage)) =
     logs example_storage \<and>
   logs (snd (test_command_route (JString ''/nonexistent'') 0 0 example_storage)) = []"
  by (simp add: nonexistent_route example_storage_logs)

section \<open>Uniqueness of ids and names under sequences of calls\<close>

lemma distinct_values_map_set:
  "distinct (map fst m) \<Longrightarrow> distinct (map (\<lambda>q. f (snd q)) m) \<Longrightarrow>
   (\<forall>q\<in>set m. fst q \<noteq> i \<longrightarrow> f (snd q) \<noteq> f v) \<Longrightarrow>
   distinct (map (\<lambda>q. f (snd q)) (map_set i v m))"
proof (induction m)
  case Nil
  then show ?case by simp
next
  case (Cons p ps)
  show ?case
  proof (cases "fst p = i")
    case True
    have "\<forall>q\<in>set ps. fst q \<noteq> i"
    proof
      fix q
      assume "q \<in> set ps"
      then have "fst q \<in> fst ` set ps" by (rule imageI)
      moreover have "fst p \<notin> fst ` set ps" using Cons.prems(1) by simp
      ultimately show "fst q \<noteq> i" using True by metis
    qed
    then have "f v \<notin> (\<lambda>q. f (snd q)) ` set ps"
      using Cons.prems(3) by force
    then show ?thesis
      using True Cons.prems(2) by simp
  next
    case False
    have "f (snd p) \<notin> (\<lambda>q. f (snd q)) ` set (map_set i v ps)"
    proof
      assume "f (snd p) \<in> (\<lambda>q. f (snd q)) ` set (map_set i v ps)"
      then obtain q where q: "q \<in> set (map_set i v ps)" and eq: "f (snd p) = f (snd q)"
        by auto
      from q set_map_set [of i v ps] have "q = (i, v) \<or> q \<in> set ps" by auto
      then show False
      proof
        assume "q = (i, v)"
        with eq have "f (snd p) = f v" by simp
        moreover have "f (snd p) \<noteq> f v" using Cons.prems(3) False by simp
        ultimately show False by simp
      next
        assume "q \<in> set ps"
        then have "f (snd q) \<in> (\<lambda>q. f (snd q)) ` set ps" by (rule imageI)
        moreover have "f (snd p) \<notin> (\<lambda>q. f (snd q)) ` set ps"
          using Cons.prems(2) by simp
        ultimately show False using eq by simp
      qed
    qed
    moreover have "distinct (map (\<lambda>q. f (snd q)) (map_set i v ps))"
      using Cons by simp
    ultimately show ?thesis using False by simp
  qed
qed

lemma keys_distinct_exec:
  "distinct (map fst (commands s)) \<Longrightarrow> distinct (map fst (commands (exec c s)))"
  by (cases c)
    (auto simp: createCommand_def updateCommand_def deleteCommand_def createLog_def
      updateBotStats_def Let_def map_delete_def distinct_keys_map_set distinct_map_filter
      split: option.splits)

lemma well_keyed_exec: "well_keyed s \<Longrightarrow> well_keyed (exec c s)"
proof (cases c)
  case (CreateCommand ic t)
  assume "well_keyed s"
  then show ?thesis
    using set_map_set [of "commandsIdCounter s" _ "commands s"] CreateCommand
    by (fastforce simp: well_keyed_def createCommand_def Let_def distinct_keys_map_set
        list_all_iff)
next
  case (UpdateCommand i p)
  assume wk: "well_keyed s"
  show ?thesis
  proof (cases "map_get (commands s) i")
    case None
    with wk UpdateCommand show ?thesis by (simp add: updateCommand_def)
  next
    case (Some e)
    then have "(i, e) \<in> set (commands s)" by (simp add: map_get_def map_of_SomeD)
    with wk have "id_command e = i" by (auto simp: well_keyed_def list_all_iff)
    then show ?thesis
      using wk Some UpdateCommand set_map_set [of i "spread_partial e p" "commands s"]
      by (fastforce simp: well_keyed_def updateCommand_def Let_def distinct_keys_map_set
          list_all_iff spread_partial_id)
  qed
next
  case (DeleteCommand i)
  assume "well_keyed s"
  with DeleteCommand show ?thesis
    by (auto simp: well_keyed_def deleteCommand_def map_delete_def distinct_map_filter
        list_all_iff)
next
  case (CreateLog l t)
  assume "well_keyed s"
  with CreateLog show ?thesis by (simp add: well_keyed_def createLog_def Let_def)
next
  case (UpdateBotStats st)
  assume "well_keyed s"
  with UpdateBotStats show ?thesis by (simp add: well_keyed_def updateBotStats_def Let_def)
qed

lemma well_keyed_run: "well_keyed s \<Longrightarrow> well_keyed (run cs s)"
  by (induction cs arbitrary: s) (simp_all add: well_keyed_exec)

lemma well_keyed_MemStorage: "well_keyed (MemStorage clk)"
  by (simp add: well_keyed_def MemStorage_eval)

lemma well_keyed_ids_unique: "well_keyed s \<Longrightarrow> ids_unique s"
proof -
  assume wk: "well_keyed s"
  then have "map (\<lambda>q. id_command (snd q)) (commands s) = map fst (commands s)"
    by (auto simp: well_keyed_def list_all_iff)
  then have "map id_command (getCommands s) = map fst (commands s)"
    by (simp add: getCommands_def map_values_def comp_def)
  then show ?thesis
    using wk by (simp add: ids_unique_def well_keyed_def)
qed

lemma names_unique_alt:
  "names_unique s = distinct (map (\<lambda>q. name (snd q)) (commands s))"
  by (simp add: names_unique_def getCommands_def map_values_def comp_def)

lemma names_unique_exec:
  assumes nu: "names_unique s" and dk: "distinct (map fst (commands s))"
    and free: "name_is_free c s"
  shows "names_unique (exec c s)"
proof (cases c)
  case (CreateCommand ic t)
  let ?new = "\<lparr>name = name ic, description = description ic, usage = usage ic,
               active = active ic, id_command = commandsIdCounter s, createdAt = t\<rparr>"
  have fresh: "\<forall>q\<in>set (commands s). fst q \<noteq> commandsIdCounter s \<longrightarrow> name (snd q) \<noteq> name ?new"
    using free CreateCommand by (force simp: getCommands_def map_values_def)
  have "distinct (map (\<lambda>q. name (snd q)) (map_set (commandsIdCounter s) ?new (commands s)))"
    using dk nu fresh unfolding names_unique_alt by (rule distinct_values_map_set)
  then show ?thesis
    using CreateCommand by (simp add: names_unique_alt createCommand_def Let_def)
next
  case (UpdateCommand i p)
  show ?thesis
  proof (cases "map_get (commands s) i")
    case None
    with nu UpdateCommand show ?thesis by (simp add: updateCommand_def)
  next
    case (Some e)
    then have mem: "(i, e) \<in> set (commands s)" by (simp add: map_get_def map_of_SomeD)
    have inj: "inj_on (\<lambda>q. name (snd q)) (set (commands s))"
      using nu unfolding names_unique_alt by (simp add: distinct_map)
    have fresh: "\<forall>q\<in>set (commands s). fst q \<noteq> i \<longrightarrow> name (snd q) \<noteq> name (spread_partial e p)"
    proof (cases "name_opt p")
      case None
      then have "name (spread_partial e p) = name e" by (simp add: spread_partial_def)
      moreover have "\<forall>q\<in>set (commands s). fst q \<noteq> i \<longrightarrow> name (snd q) \<noteq> name e"
      proof (intro ballI impI notI)
        fix q
        assume q: "q \<in> set (commands s)" and other: "fst q \<noteq> i"
          and same: "name (snd q) = name e"
        from same have "(\<lambda>q. name (snd q)) q = (\<lambda>q. name (snd q)) (i, e)" by simp
        with inj have "q = (i, e)" using q mem by (rule inj_onD)
        with other show False by simp
      qed
      ultimately show ?thesis by simp
    next
      case (Some n)
      then have "name (spread_partial e p) = n" by (simp add: spread_partial_def)
      moreover have "\<forall>q\<in>set (commands s). fst q \<noteq> i \<longrightarrow> name (snd q) \<noteq> n"
        using free UpdateCommand Some by (auto simp: list_all_iff)
      ultimately show ?thesis by simp
    qed
    have "distinct (map (\<lambda>q. name (snd q)) (map_set i (spread_partial e p) (commands s)))"
      using dk nu fresh unfolding names_unique_alt by (rule distinct_values_map_set)
    then show ?thesis
      using UpdateCommand Some by (simp add: names_unique_alt updateCommand_def Let_def)
  qed
next
  case (DeleteCommand i)
  with nu show ?thesis
    by (simp add: names_unique_alt deleteCommand_def map_delete_def distinct_map_filter)
next
  case (CreateLog l t)
  with nu show ?thesis by (simp add: names_unique_alt createLog_def Let_def)
next
  case (UpdateBotStats st)
  with nu show ?thesis by (simp add: names_unique_alt updateBotStats_def Let_def)
qed

lemma names_unique_run:
  "names_unique s \<Longrightarrow> distinct (map fst (commands s)) \<Longrightarrow> names_free cs s \<Longrightarrow>
   names_unique (run cs s)"
proof (induction cs arbitrary: s)
  case Nil
  then show ?case by simp
next
  case (Cons c cs)
  from Cons.prems have "names_unique (exec c s)" by (simp add: names_unique_exec)
  moreover from Cons.prems have "distinct (map fst (commands (exec c s)))"
    by (simp add: keys_distinct_exec)
  moreover from Cons.prems have "names_free cs (exec c s)" by simp
  ultimately have "names_unique (run cs (exec c s))" by (rule Cons.IH)
  then show ?case by simp
qed

lemma names_unique_MemStorage: "names_unique (MemStorage clk)"
  by (simp add: names_unique_alt MemStorage_eval)

text \<open>
  C1, as the code has it. The ids of the stored commands are pairwise distinct in every
  store reached from the constructor by calls on the store. The names are pairwise
  distinct after construction, and stay so along a sequence of calls in which every
  \<open>createCommand\<close> and every \<open>updateCommand\<close> that sets a name brings a name that no other
  stored command holds; the store itself checks no name.
\<close>

theorem command_uniqueness:
  "ids_unique (run calls (MemStorage clk)) \<and>
   names_unique (MemStorage clk) \<and>
   (names_free calls (MemStorage clk) \<longrightarrow> names_unique (run calls (MemStorage clk)))"
proof -
  have "well_keyed (run calls (MemStorage clk))"
    using well_keyed_MemStorage by (rule well_keyed_run)
  then have "ids_unique (run calls (MemStorage clk))" by (rule well_keyed_ids_unique)
  moreover have "distinct (map fst (commands (MemStorage clk)))"
    using well_keyed_MemStorage by (simp add: well_keyed_def)
  ultimately show ?thesis
    using names_unique_MemStorage names_unique_run by blast
qed

text \<open>
  Creating a command named echo, renaming it to echo2 and deleting ping keeps names and
  ids distinct.
\<close>

lemma echo_calls_free: "names_free echo_calls example_storage"
  by code_simp

lemma echo_calls_names:
  "map name (getCommands (run echo_calls example_storage)) =
     [''help'', ''uptime'', ''stats'', ''echo2'']"
  by code_simp

theorem command_uniqueness_witness:
  "names_free echo_calls example_storage \<and>
   names_unique (run echo_calls example_storage) \<and>
   ids_unique (run echo_calls example_storage) \<and>
   map name (getCommands (run echo_calls example_storage)) =
     [''help'', ''uptime'', ''stats'', ''echo2'']"
  using command_uniqueness [of echo_calls example_clock] echo_calls_free echo_calls_names
  unfolding example_storage_def by blast

text \<open>
  C1 as stated fails: \<open>createCommand\<close> accepts a second command named ping, and
  \<open>updateCommand\<close> renames help to ping.
\<close>

lemma second_ping_names:
  "map name (getCommands (run [CreateCommand \<lparr>name = ''ping'', description = ''again'',
       usage = ''/ping'', active = True\<rparr> 9] example_storage)) =
     [''ping'', ''help'', ''uptime'', ''stats'', ''ping'']"
  by code_simp

lemma renamed_ping_names:
  "map name (getCommands (run [UpdateCommand 2 \<lparr>name_opt = Some ''ping'',
       description_opt = None, usage_opt = None, active_opt = None\<rparr>] example_storage)) =
     [''ping'', ''ping'', ''uptime'', ''stats'']"
  by code_simp

theorem duplicate_name_counterexample:
  "\<not> names_unique (run [CreateCommand \<lparr>name = ''ping'', description = ''again'',
       usage = ''/ping'', active = True\<rparr> 9] example_storage) \<and>
   \<not> names_unique (run [UpdateCommand 2 \<lparr>name_opt = Some ''ping'',
       description_opt = None, usage_opt = None, active_opt = None\<rparr>] example_storage)"
  unfolding names_unique_def second_ping_names renamed_ping_names by simp

section \<open>The id counter\<close>

lemma increment_ge: "n \<le> increment n"
  by (simp add: increment_def)




lemma counter_exec: "commandsIdCounter s \<le> commandsIdCounter (exec c s)"
  by (cases c)
    (simp_all add: createCommand_def updateCommand_def deleteCommand_def createLog_def
      updateBotStats_def Let_def increment_ge split: option.splits)

lemma counter_run: "commandsIdCounter s \<le> commandsIdCounter (run cs s)"
proof (induction cs arbitrary: s)
  case Nil
  then show ?case by simp
next
  case (Cons c cs)
  have "commandsIdCounter s \<le> commandsIdCounter (exec c s)" by (rule counter_exec)
  also have "\<dots> \<le> commandsIdCounter (run cs (exec c s))" by (rule Cons.IH)
  finally show ?case by simp
qed

text \<open>The counter of a store made by the constructor stays between 1 and \<open>2^53\<close>.\<close>

lemma counter_limit_exec:
  "commandsIdCounter s \<le> 2 ^ 53 \<Longrightarrow> commandsIdCounter (exec c s) \<le> 2 ^ 53"
  by (cases c)
    (simp_all add: createCommand_def updateCommand_def deleteCommand_def createLog_def
      updateBotStats_def Let_def increment_def split: option.splits)

lemma counter_limit_run:
  "commandsIdCounter s \<le> 2 ^ 53 \<Longrightarrow> commandsIdCounter (run cs s) \<le> 2 ^ 53"
proof (induction cs arbitrary: s)
  case Nil
  then show ?case by simp
next
  case (Cons c cs)
  from Cons.prems have "commandsIdCounter (exec c s) \<le> 2 ^ 53" by (rule counter_limit_exec)
  then have "commandsIdCounter (run cs (exec c s)) \<le> 2 ^ 53" by (rule Cons.IH)
  then show ?case by simp
qed


lemma constructor_counter: "commandsIdCounter (MemStorage clk) = 5"
  by (simp add: MemStorage_eval)

lemma counter_range:
  "1 \<le> commandsIdCounter (run calls (MemStorage clk)) \<and>
   commandsIdCounter (run calls (MemStorage clk)) \<le> 2 ^ 53"
proof -
  have "commandsIdCounter (MemStorage clk) \<le> 2 ^ 53" by (simp add: constructor_counter)
  then have "commandsIdCounter (run calls (MemStorage clk)) \<le> 2 ^ 53"
    by (rule counter_limit_run)
  moreover have "5 \<le> commandsIdCounter (run calls (MemStorage clk))"
    using counter_run [of "MemStorage clk" calls] by (simp add: constructor_counter)
  ultimately show ?thesis by simp
qed
















end
